theory Spec2Isabelle
  imports Main
begin

section \<open>Strings\<close>

text \<open>
  A JavaScript string is a sequence of UTF-16 code units. The model uses \<^typ>\<open>string\<close>:
  every \<^typ>\<open>char\<close> stands for the code unit with the same number, so the strings of the
  model are the strings over U+0000 .. U+00FF. Character classes and case mapping are
  those of JavaScript on that range.
\<close>

definition code :: "char \<Rightarrow> nat" where
  "code c = of_char c"

text \<open>The regular-expression classes \<open>[a-z]\<close> and \<open>[A-Z]\<close>.\<close>

definition is_az :: "char \<Rightarrow> bool" where
  "is_az c = (97 \<le> code c \<and> code c \<le> 122)"

definition is_AZ :: "char \<Rightarrow> bool" where
  "is_AZ c = (65 \<le> code c \<and> code c \<le> 90)"

text \<open>
  The characters that \<open>String.prototype.toLowerCase\<close> changes on this range: A-Z and
  U+00C0 .. U+00DE without the multiplication sign U+00D7. Each moves up by 32.
\<close>

definition is_upper :: "char \<Rightarrow> bool" where
  "is_upper c = (is_AZ c \<or> (192 \<le> code c \<and> code c \<le> 222 \<and> code c \<noteq> 215))"

definition toLowerChar :: "char \<Rightarrow> char" where
  "toLowerChar c = (if is_upper c then char_of (code c + 32) else c)"

definition toLowerCase :: "string \<Rightarrow> string" where
  "toLowerCase s = map toLowerChar s"

text \<open>
  White space as \<open>\s\<close> and \<open>String.prototype.trim\<close> see it (tab, line feed, vertical tab,
  form feed, carriage return, space, no-break space), and the line terminators, which
  the regular-expression dot does not match.
\<close>

definition is_space :: "char \<Rightarrow> bool" where
  "is_space c = (code c \<in> {9, 10, 11, 12, 13, 32, 160})"

definition is_line_terminator :: "char \<Rightarrow> bool" where
  "is_line_terminator c = (code c = 10 \<or> code c = 13)"

definition trim :: "string \<Rightarrow> string" where
  "trim s = rev (dropWhile is_space (rev (dropWhile is_space s)))"

text \<open>Truthiness of a JavaScript string: the empty string is falsy.\<close>

definition truthy :: "string \<Rightarrow> bool" where
  "truthy s = (s \<noteq> [])"

text \<open>
  \<open>find_sub pat s\<close> is the leftmost occurrence of \<open>pat\<close> in \<open>s\<close>: the text before it and
  the text after it. This is how a regular expression that is a literal finds its match.
\<close>

fun strip_prefix :: "string \<Rightarrow> string \<Rightarrow> string option" where
  "strip_prefix [] s = Some s"
| "strip_prefix (p # ps) [] = None"
| "strip_prefix (p # ps) (c # cs) = (if p = c then strip_prefix ps cs else None)"

fun find_sub :: "string \<Rightarrow> string \<Rightarrow> (string \<times> string) option" where
  "find_sub pat [] = (case strip_prefix pat [] of Some r \<Rightarrow> Some ([], r) | None \<Rightarrow> None)"
| "find_sub pat (c # cs) =
     (case strip_prefix pat (c # cs) of
        Some r \<Rightarrow> Some ([], r)
      | None \<Rightarrow> (case find_sub pat cs of
                  Some (pre, post) \<Rightarrow> Some (c # pre, post)
                | None \<Rightarrow> None))"

text \<open>\<open>s.includes(pat)\<close>.\<close>

definition includes_str :: "string \<Rightarrow> string \<Rightarrow> bool" where
  "includes_str s pat = (find_sub pat s \<noteq> None)"

section \<open>Renaming tool calls\<close>

text \<open>
  \<open>str.replace(/([a-z])([A-Z])/g, '$1-$2')\<close>: the scan goes left to right and resumes
  after each match, so the upper-case letter of a match is not the start of the next.
\<close>

fun replace_lower_upper :: "string \<Rightarrow> string" where
  "replace_lower_upper (a # b # rest) =
     (if is_az a \<and> is_AZ b then a # CHR ''-'' # b # replace_lower_upper rest
      else a # replace_lower_upper (b # rest))"
| "replace_lower_upper s = s"

text \<open>\<open>str.replace(/([A-Z])([A-Z][a-z])/g, '$1-$2')\<close>, scanned the same way.\<close>

fun replace_upper_word :: "string \<Rightarrow> string" where
  "replace_upper_word (a # b # c # rest) =
     (if is_AZ a \<and> is_AZ b \<and> is_az c then a # CHR ''-'' # b # c # replace_upper_word rest
      else a # replace_upper_word (b # c # rest))"
| "replace_upper_word s = s"

definition camelCaseToDash :: "string \<Rightarrow> string" where
  "camelCaseToDash str = toLowerCase (replace_upper_word (replace_lower_upper str))"

section \<open>Confirmation blocks\<close>

definition open_tag :: string where
  "open_tag = ''<service_confirmation>''"

definition close_tag :: string where
  "close_tag = ''</service_confirmation>''"

text \<open>
  The match of \<open>/<service_confirmation>([\s\S]*?)<\/service_confirmation>/\<close>: the text
  before the match, the captured group and the text after the match. The match starts at
  the leftmost opening tag (a later opening tag has a closing tag after it only if the
  leftmost one has), and the lazy group ends at the first closing tag after it.
\<close>

definition match_confirmation :: "string \<Rightarrow> (string \<times> string \<times> string) option" where
  "match_confirmation s =
     (case find_sub open_tag s of
        None \<Rightarrow> None
      | Some (pre, rest) \<Rightarrow>
          (case find_sub close_tag rest of
             None \<Rightarrow> None
           | Some (inner, post) \<Rightarrow> Some (pre, inner, post)))"

text \<open>\<open>text.replace(/<service_confirmation>[\s\S]*?<\/service_confirmation>/, '')\<close>.\<close>

definition redact :: "string \<Rightarrow> string" where
  "redact s = (case match_confirmation s of None \<Rightarrow> s | Some (pre, inner, post) \<Rightarrow> pre @ post)"

text \<open>
  The first group of \<open>/Label:\s*(.*)/\<close>, for a label given with its colon. The match starts
  at the leftmost occurrence of the label; \<open>\s*\<close> takes all the white space that follows,
  line breaks included; the group takes the rest of the line where the white space ended.
\<close>

definition match_field :: "string \<Rightarrow> string \<Rightarrow> string option" where
  "match_field label s =
     (case find_sub label s of
        None \<Rightarrow> None
      | Some (pre, rest) \<Rightarrow>
          Some (takeWhile (\<lambda>c. \<not> is_line_terminator c) (dropWhile is_space rest)))"

text \<open>A value that is a string or null: null and the empty string are falsy.\<close>

fun truthy_opt :: "string option \<Rightarrow> bool" where
  "truthy_opt None = False"
| "truthy_opt (Some s) = truthy s"

text \<open>The string of a value that was tested truthy; the first equation is never reached.\<close>

fun string_of :: "string option \<Rightarrow> string" where
  "string_of None = []"
| "string_of (Some s) = s"

record ConfirmationRecord =
  name :: string
  phone :: string
  address :: string
  details :: string

text \<open>
  The post-processing of a turn's text: the argument of \<open>addServiceToHistory\<close>, or
  \<open>None\<close> when the handler does not call it.
\<close>

definition extract_confirmation :: "string \<Rightarrow> ConfirmationRecord option" where
  "extract_confirmation newCode =
     (case match_confirmation newCode of
        None \<Rightarrow> None
      | Some (pre, detailsText, post) \<Rightarrow>
          if \<not> truthy detailsText then None
          else
            let nameV = map_option trim (match_field ''Name:'' detailsText);
                phoneV = map_option trim (match_field ''Phone:'' detailsText);
                detailsV = map_option trim (match_field ''Details:'' detailsText);
                addressV = map_option trim (match_field ''Address:'' detailsText)
            in if truthy_opt nameV \<and> truthy_opt addressV \<and> truthy_opt phoneV
               then Some \<lparr>name = string_of nameV, phone = string_of phoneV,
                          address = string_of addressV,
                          details = (if truthy_opt detailsV then string_of detailsV
                                     else ''No especificado'')\<rparr>
               else None)"

text \<open>
  The value of a field in the specification's words: everything after the colon to the
  end of the line, trimmed. It is the reference the extraction is compared with.
\<close>

definition spec_field_value :: "string \<Rightarrow> string \<Rightarrow> string option" where
  "spec_field_value label block =
     (case find_sub label block of
        None \<Rightarrow> None
      | Some (pre, rest) \<Rightarrow> Some (trim (takeWhile (\<lambda>c. \<not> is_line_terminator c) rest)))"

section \<open>The application state\<close>

datatype ChatState = IDLE | GENERATING | THINKING | EXECUTING

datatype ServiceStatus = Pendiente | Aprobado | EnProceso | Terminado

record ServiceHistoryItem = ConfirmationRecord +
  sid :: string
  timestamp :: nat
  status :: ServiceStatus
  price :: "string option"

datatype view = ChatView | AdminView

datatype admin_tab = HistoryTab | InventoryTab

text \<open>
  A message of the conversation is the \<open>div\<close> that \<open>addMessage\<close> builds: its role class,
  the \<open>details\<close> element of the thinking process (its \<open>open\<close> attribute, its \<open>hidden\<close>
  class, the markup inside) and the markup of its \<open>.text\<close> element.
\<close>

record turn =
  role :: string
  thinkingOpen :: bool
  thinkingHidden :: bool
  thinkingElement :: string
  textElement :: string

text \<open>
  Calls on collaborators that are outside the component, in the order they are made:
  the speech synthesiser, the model, a browser alert and a new browser window.
\<close>

datatype effect =
    SpeechCancel
  | Speak string
  | SendMessageStream "(string \<times> string) list" string
  | Alert string
  | WindowOpen string

record MapApp =
  chatState :: ChatState
  inputMessage :: string
  messages :: "turn list"
  currentView :: view
  serviceHistory :: "ServiceHistoryItem list"
  isLocationSelectionMode :: bool
  locationSelectionMessage :: string
  isMuted :: bool
  currentAdminTab :: admin_tab
  effects :: "effect list"

text \<open>
  Library functions the code calls: \<open>marked.parse\<close> (markdown to markup), the
  \<open>textContent\<close> of an element given its markup, and \<open>JSON.stringify\<close> of a tool call with
  indentation 2. They are parameters of the model.
\<close>

record 'a env =
  marked :: "string \<Rightarrow> string"
  textContent :: "string \<Rightarrow> string"
  stringify :: "string \<times> 'a \<Rightarrow> string"

definition setChatState :: "ChatState \<Rightarrow> MapApp \<Rightarrow> MapApp" where
  "setChatState s app = app\<lparr>chatState := s\<rparr>"

text \<open>\<open>addMessage\<close> appends the new element; its elements are then reached by its index.\<close>

definition addMessage :: "string \<Rightarrow> string \<Rightarrow> MapApp \<Rightarrow> MapApp" where
  "addMessage r message app =
     app\<lparr>messages := messages app @
       [\<lparr>role = trim r, thinkingOpen = False, thinkingHidden = False,
         thinkingElement = [], textElement = message\<rparr>]\<rparr>"

definition set_textElement :: "nat \<Rightarrow> string \<Rightarrow> MapApp \<Rightarrow> MapApp" where
  "set_textElement i h app =
     (if i < length (messages app)
      then app\<lparr>messages := (messages app)[i := (messages app ! i)\<lparr>textElement := h\<rparr>]\<rparr>
      else app)"

definition get_textElement :: "nat \<Rightarrow> MapApp \<Rightarrow> string" where
  "get_textElement i app = (if i < length (messages app) then textElement (messages app ! i) else [])"

definition update_turn :: "nat \<Rightarrow> (turn \<Rightarrow> turn) \<Rightarrow> MapApp \<Rightarrow> MapApp" where
  "update_turn i f app =
     (if i < length (messages app)
      then app\<lparr>messages := (messages app)[i := f (messages app ! i)]\<rparr>
      else app)"

definition addServiceToHistory :: "string \<Rightarrow> nat \<Rightarrow> ConfirmationRecord \<Rightarrow> MapApp \<Rightarrow> MapApp" where
  "addServiceToHistory newId now d app =
     app\<lparr>serviceHistory :=
       \<lparr>name = name d, phone = phone d, address = address d, details = details d,
        sid = newId, timestamp = now, status = Pendiente, price = None\<rparr>
       # serviceHistory app\<rparr>"

definition enableLocationSelectionMode :: "MapApp \<Rightarrow> MapApp" where
  "enableLocationSelectionMode app =
     app\<lparr>isLocationSelectionMode := True,
         locationSelectionMessage :=
           ''Haga clic en el mapa para establecer su ubicaci'' @ [char_of (243::nat)] @ ''n''\<rparr>"

definition disableLocationSelectionMode :: "MapApp \<Rightarrow> MapApp" where
  "disableLocationSelectionMode app =
     app\<lparr>isLocationSelectionMode := False, locationSelectionMessage := []\<rparr>"

definition speakMessage :: "string \<Rightarrow> MapApp \<Rightarrow> MapApp" where
  "speakMessage txt app =
     (if isMuted app \<or> \<not> truthy txt then app
      else let cleanText = trim (redact txt)
           in if \<not> truthy cleanText then app
              else app\<lparr>effects := effects app @ [SpeechCancel, Speak cleanText]\<rparr>)"

section \<open>A turn of the conversation\<close>

text \<open>
  \<open>el.innerHTML\<close> of a message: the serialisation of the \<open>details\<close> element and of the
  \<open>.text\<close> element that \<open>addMessage\<close> puts into it.
\<close>

definition innerHTML :: "turn \<Rightarrow> string" where
  \<open>innerHTML el =
     ''<details class="thinking'' @ (if thinkingHidden el then '' hidden'' else []) @
     ''" aria-label="Model thinking process"'' @
     (if thinkingOpen el then '' open="true"'' else []) @
     ''><summary>Thinking process</summary><div>'' @ thinkingElement el @
     ''</div></details><div class="text">'' @ textElement el @ ''</div>''\<close>

definition hasFunctionCallMessage :: "MapApp \<Rightarrow> bool" where
  "hasFunctionCallMessage app =
     list_ex (\<lambda>el. includes_str (innerHTML el) ''Calling function:'') (messages app)"

text \<open>
  The history rebuilt from the rendered messages, before \<open>slice(0, -1)\<close>: a role and a
  text for each message that is not an error.
\<close>

definition chatHistory :: "'a env \<Rightarrow> turn list \<Rightarrow> (string \<times> string) list" where
  "chatHistory e els =
     map (\<lambda>el. (if role el = ''user'' then ''user'' else ''model'',
                 trim (textContent e (textElement el))))
       (filter (\<lambda>el. role el \<noteq> ''error'') els)"

text \<open>
  One part of a streamed chunk. An absent field and an empty one are both falsy, so
  \<open>thought\<close> and \<open>text\<close> are strings; a function call has a name and arguments.
\<close>

record 'a part =
  functionCall :: "(string \<times> 'a) option"
  thought :: string
  ptext :: string

text \<open>
  What the model does in one turn: the parts it streams, in order (the three nested
  loops over chunks, candidates and parts visit them one after the other), and then
  either the end of the stream or an exception with its message. An exception of
  \<open>ai.chats.create\<close> or \<open>sendMessageStream\<close> itself is an exception before any part.
\<close>

datatype outcome = Completes | Throws string

record 'a response =
  parts :: "'a part list"
  outcome :: outcome

text \<open>The variables of the handler during the stream.\<close>

record stream_state =
  newCode :: string
  thoughtAccumulator :: string
  app :: MapApp

text \<open>The body of the innermost loop, for the assistant message at index \<open>idx\<close>.\<close>

definition explain_call :: "'a env \<Rightarrow> string \<times> 'a \<Rightarrow> MapApp \<Rightarrow> MapApp" where
  "explain_call e fc a =
     (let mcpCall = (camelCaseToDash (fst fc), snd fc);
          explanation = ''Calling function:'' @ [char_of (10::nat)] @ ''```json'' @ [char_of (10::nat)]
            @ stringify e mcpCall @ [char_of (10::nat)] @ ''```''
      in set_textElement (length (messages a)) (marked e explanation) (addMessage ''assistant'' [] a))"

definition process_part :: "'a env \<Rightarrow> nat \<Rightarrow> stream_state \<Rightarrow> 'a part \<Rightarrow> stream_state" where
  "process_part e idx s p =
     (let a1 = (case functionCall p of None \<Rightarrow> app s | Some fc \<Rightarrow> explain_call e fc (app s))
      in if truthy (thought p) then
           let acc = thoughtAccumulator s @ '' '' @ thought p
           in s\<lparr>thoughtAccumulator := acc,
                app := update_turn idx
                  (\<lambda>el. el\<lparr>thinkingElement := marked e acc, thinkingHidden := False,
                            thinkingOpen := True\<rparr>)
                  (setChatState THINKING a1)\<rparr>
         else if truthy (ptext p) then
           let code' = newCode s @ ptext p
           in s\<lparr>newCode := code',
                app := set_textElement idx (marked e (redact code')) (setChatState EXECUTING a1)\<rparr>
         else s\<lparr>app := a1\<rparr>)"

text \<open>The statements between the end of the stream and the completion notice.\<close>

definition after_stream :: "nat \<Rightarrow> string \<Rightarrow> nat \<Rightarrow> stream_state \<Rightarrow> MapApp" where
  "after_stream idx newId now s =
     (let finalUserVisibleText = trim (redact (newCode s));
          a1 = (if truthy finalUserVisibleText then speakMessage finalUserVisibleText (app s)
                else app s);
          a2 = (if includes_str (toLowerCase (newCode s)) ''click on the map''
                   \<or> includes_str (toLowerCase (newCode s)) ''clic en el mapa''
                then enableLocationSelectionMode a1 else a1);
          a3 = (case extract_confirmation (newCode s) of
                  None \<Rightarrow> a2
                | Some d \<Rightarrow> addServiceToHistory newId now d a2)
      in update_turn idx
           (\<lambda>el. if thinkingOpen el
                  then el\<lparr>thinkingHidden := (thinkingHidden el \<or> \<not> truthy (thoughtAccumulator s)),
                          thinkingOpen := False\<rparr>
                  else el)
           a3)"

text \<open>The completion notice.\<close>

definition completion_notice :: "'a env \<Rightarrow> nat \<Rightarrow> MapApp \<Rightarrow> MapApp" where
  "completion_notice e idx a =
     (if trim (get_textElement idx a) = ''...'' \<or> length (trim (get_textElement idx a)) = 0
      then if \<not> hasFunctionCallMessage a then set_textElement idx (marked e ''Done.'') a
           else if trim (get_textElement idx a) = ''...'' then set_textElement idx [] a
           else a
      else a)"

text \<open>The \<open>catch\<close> clause.\<close>

definition catch_error :: "'a env \<Rightarrow> string \<Rightarrow> MapApp \<Rightarrow> MapApp" where
  "catch_error e errorMessage a =
     set_textElement (length (messages a)) (marked e (''Error: '' @ errorMessage))
       (addMessage ''error'' [] a)"

text \<open>The state at the start of the \<open>try\<close> block, and the history passed to the model.\<close>

definition begin_turn :: "MapApp \<Rightarrow> MapApp" where
  "begin_turn a =
     set_textElement (length (messages a)) ''...''
       (setChatState GENERATING (addMessage ''assistant'' [] a))"

definition turn_history :: "'a env \<Rightarrow> MapApp \<Rightarrow> (string \<times> string) list" where
  "turn_history e a = butlast (chatHistory e (messages (begin_turn a)))"

text \<open>The state when the loop over the stream has consumed all the parts it gets.\<close>

definition run_stream :: "'a env \<Rightarrow> 'a response \<Rightarrow> string \<Rightarrow> MapApp \<Rightarrow> stream_state" where
  "run_stream e resp input a =
     foldl (process_part e (length (messages a)))
       \<lparr>newCode = [], thoughtAccumulator = [],
        app = (begin_turn a)\<lparr>effects := effects (begin_turn a) @
                [SendMessageStream (turn_history e a) input]\<rparr>\<rparr>
       (parts resp)"

text \<open>
  \<open>sendMessageHandler\<close>, as installed by the entry point. \<open>newId\<close> and \<open>now\<close> are what the
  clock and the random generator give if a service is recorded in this turn.
\<close>

definition sendMessageHandler ::
    "'a env \<Rightarrow> 'a response \<Rightarrow> string \<Rightarrow> nat \<Rightarrow> string \<Rightarrow> string \<Rightarrow> MapApp \<Rightarrow> MapApp" where
  "sendMessageHandler e resp newId now input r a =
     (let idx = length (messages a);
          s = run_stream e resp input a
      in setChatState IDLE
           (case outcome resp of
              Completes \<Rightarrow> completion_notice e idx (after_stream idx newId now s)
            | Throws errorMessage \<Rightarrow> catch_error e errorMessage (app s)))"

section \<open>Sending a message\<close>

text \<open>
  \<open>sendMessageAction\<close>. The handler is a field of the component that may be unset;
  \<open>message\<close> and \<open>role\<close> are optional arguments.
\<close>

definition sendMessageAction ::
    "'a env \<Rightarrow> (string \<Rightarrow> string \<Rightarrow> MapApp \<Rightarrow> MapApp) option \<Rightarrow> string option \<Rightarrow> string option
      \<Rightarrow> MapApp \<Rightarrow> MapApp" where
  "sendMessageAction e handler message r a =
     (if chatState a \<noteq> IDLE then a
      else
        let a1 = a\<lparr>effects := effects a @ [SpeechCancel]\<rparr>;
            a2 = (if isLocationSelectionMode a1 \<and> \<not> truthy_opt message
                  then disableLocationSelectionMode a1 else a1);
            msgRole = (if truthy_opt r then toLowerCase (string_of r) else ''user'')
        in if \<not> truthy_opt message \<and> toLowerCase (trim (inputMessage a2)) = ''soy administrador''
           then a2\<lparr>currentView := AdminView, currentAdminTab := HistoryTab, inputMessage := []\<rparr>
           else
             let msg = (if truthy_opt message then trim (string_of message)
                        else trim (inputMessage a2));
                 a3 = (if \<not> truthy_opt message \<and> length msg > 0 then a2\<lparr>inputMessage := []\<rparr>
                       else a2)
             in if length msg = 0 then a3
                else
                  let a4 = (if msgRole = ''user'' \<or> (msgRole = ''system'' \<and> truthy msg)
                            then set_textElement (length (messages a3)) (marked e msg)
                                   (addMessage (if msgRole = ''system'' then ''assistant'' else msgRole)
                                      ''...'' a3)
                            else a3)
                  in (case handler of
                        None \<Rightarrow> a4
                      | Some h \<Rightarrow> h msg (if msgRole = ''system'' then ''user'' else msgRole) a4))"

section \<open>Map queries\<close>

record MapParams =
  location :: "string option"
  origin :: "string option"
  destination :: "string option"

text \<open>The two operations on the map that a query can start.\<close>

datatype map_call = ViewLocation string | Directions string string

text \<open>\<open>handleMapQuery\<close>: the operation it starts, or \<open>None\<close> when it starts none.\<close>

definition handleMapQuery :: "MapParams \<Rightarrow> map_call option" where
  "handleMapQuery params =
     (if truthy_opt (location params) then Some (ViewLocation (string_of (location params)))
      else if truthy_opt (origin params) \<and> truthy_opt (destination params)
        then Some (Directions (string_of (origin params)) (string_of (destination params)))
      else if truthy_opt (destination params)
        then Some (ViewLocation (string_of (destination params)))
      else None)"

section \<open>The service history\<close>

definition set_status :: "string \<Rightarrow> (ServiceHistoryItem \<Rightarrow> ServiceHistoryItem) \<Rightarrow> MapApp \<Rightarrow> MapApp" where
  "set_status serviceId f a =
     a\<lparr>serviceHistory := map (\<lambda>service. if sid service = serviceId then f service else service)
                            (serviceHistory a)\<rparr>"

definition handleApprove :: "string \<Rightarrow> MapApp \<Rightarrow> MapApp" where
  "handleApprove serviceId a =
     (case find (\<lambda>s. sid s = serviceId) (serviceHistory a) of
        None \<Rightarrow> a
      | Some item \<Rightarrow>
          (set_status serviceId (\<lambda>service. service\<lparr>status := Aprobado\<rparr>) a)
            \<lparr>effects := effects a @
               [Alert (''Notificaci'' @ [char_of (243::nat)] @ ''n enviada al cliente: '' @ name item
                       @ '' ('' @ phone item @ '').'' @ [char_of (10::nat)]
                       @ ''Su servicio ha sido aprobado.'')]\<rparr>)"

text \<open>The address in the URL of the new window is written without its percent-encoding.\<close>

definition handleProcess :: "string \<Rightarrow> MapApp \<Rightarrow> MapApp" where
  "handleProcess serviceId a =
     (case find (\<lambda>s. sid s = serviceId) (serviceHistory a) of
        None \<Rightarrow> a
      | Some item \<Rightarrow>
          (set_status serviceId (\<lambda>service. service\<lparr>status := EnProceso\<rparr>) a)
            \<lparr>effects := effects a @
               [WindowOpen (''https://www.google.com/maps/dir/?api=1&destination='' @ address item)]\<rparr>)"

text \<open>\<open>entered\<close> is what the prompt returns: \<open>None\<close> when it is cancelled.\<close>

definition handleFinish :: "string \<Rightarrow> string option \<Rightarrow> MapApp \<Rightarrow> MapApp" where
  "handleFinish serviceId entered a =
     (case find (\<lambda>s. sid s = serviceId) (serviceHistory a) of
        None \<Rightarrow> a
      | Some item \<Rightarrow>
          (case entered of
             None \<Rightarrow> a
           | Some p \<Rightarrow>
               if trim p \<noteq> [] then
                 set_status serviceId (\<lambda>service. service\<lparr>status := Terminado, price := Some p\<rparr>) a
               else a))"

text \<open>
  The buttons that \<open>renderServiceHistory\<close> puts on a record: each operation is offered
  by one button, rendered for one status only.
\<close>

datatype operation = Approve | Process | Finish "string option"

fun offered :: "operation \<Rightarrow> ServiceStatus \<Rightarrow> bool" where
  "offered Approve st = (st = Pendiente)"
| "offered Process st = (st = Aprobado)"
| "offered (Finish entered) st = (st = EnProceso)"

text \<open>The handler that a button calls, with the identifier of its record.\<close>

fun handler_of :: "operation \<Rightarrow> string \<Rightarrow> MapApp \<Rightarrow> MapApp" where
  "handler_of Approve serviceId a = handleApprove serviceId a"
| "handler_of Process serviceId a = handleProcess serviceId a"
| "handler_of (Finish entered) serviceId a = handleFinish serviceId entered a"

text \<open>
  A click on the button of operation \<open>op\<close> on the \<open>i\<close>-th rendered record. Nothing happens
  where the page has no such button.
\<close>

definition click :: "operation \<Rightarrow> nat \<Rightarrow> MapApp \<Rightarrow> MapApp" where
  "click op i a =
     (if i < length (serviceHistory a) \<and> offered op (status (serviceHistory a ! i))
      then handler_of op (sid (serviceHistory a ! i)) a
      else a)"



text \<open>What the handler of an operation does to the record it is called for.\<close>

fun change :: "operation \<Rightarrow> ServiceHistoryItem \<Rightarrow> ServiceHistoryItem" where
  "change Approve s = s\<lparr>status := Aprobado\<rparr>"
| "change Process s = s\<lparr>status := EnProceso\<rparr>"
| "change (Finish None) s = s"
| "change (Finish (Some p)) s = (if trim p \<noteq> [] then s\<lparr>status := Terminado, price := Some p\<rparr> else s)"

section \<open>Concrete states and inputs\<close>

text \<open>The component as its field initialisers leave it.\<close>

definition initial_app :: MapApp where
  "initial_app =
     \<lparr>chatState = IDLE, inputMessage = [], messages = [], currentView = ChatView,
      serviceHistory = [], isLocationSelectionMode = False, locationSelectionMessage = [],
      isMuted = False, currentAdminTab = HistoryTab, effects = []\<rparr>"


text \<open>Stand-ins for the library functions, to run the model on concrete inputs: a paragraph
  around a non-empty text, the markup itself as text content, and a one-line serialisation.\<close>

definition example_env :: "string env" where
  \<open>example_env =
     \<lparr>marked = (\<lambda>s. if s = [] then [] else ''<p>'' @ s @ ''</p>''),
      textContent = (\<lambda>h. h),
      stringify = (\<lambda>(n, args). ''{"name": "'' @ n @ ''", "arguments": '' @ args @ ''}'')\<rparr>\<close>

text \<open>A reply that is one tool call and no text.\<close>

definition call_only :: "string response" where
  \<open>call_only =
     \<lparr>parts = [\<lparr>functionCall = Some (''viewLocationGoogleMaps'', ''{"query": "Mazamitla"}''),
                thought = [], ptext = []\<rparr>],
      outcome = Completes\<rparr>\<close>

text \<open>A reply with no part at all.\<close>

definition silent :: "string response" where
  "silent = \<lparr>parts = [], outcome = Completes\<rparr>"

text \<open>A reply whose stream breaks after its first text.\<close>

definition failing :: "string response" where
  "failing = \<lparr>parts = [\<lparr>functionCall = None, thought = [], ptext = ''Hola''\<rparr>],
              outcome = Throws ''fetch failed''\<rparr>"

text \<open>The user writes, and the model answers with a tool call only.\<close>

definition first_turn :: MapApp where
  "first_turn =
     sendMessageAction example_env (Some (sendMessageHandler example_env call_only ''id1'' 1))
       (Some ''estoy en Mazamitla'') None initial_app"

text \<open>The user writes again, and the model answers nothing.\<close>

definition second_turn :: MapApp where
  "second_turn =
     sendMessageAction example_env (Some (sendMessageHandler example_env silent ''id2'' 2))
       (Some ''gracias'') None first_turn"

text \<open>The inside of a confirmation block in the wire format, with the four values.\<close>

definition block_of :: "string \<Rightarrow> string \<Rightarrow> string \<Rightarrow> string \<Rightarrow> string" where
  "block_of n p d ad =
     [CHR 0x0A] @ ''Name: '' @ n @ [CHR 0x0A] @ ''Phone: '' @ p @ [CHR 0x0A]
     @ ''Details: '' @ d @ [CHR 0x0A] @ ''Address: '' @ ad @ [CHR 0x0A]"

text \<open>A reply whose text carries a confirmation block.\<close>

definition reply_with :: "string \<Rightarrow> string response" where
  "reply_with inner =
     \<lparr>parts = [\<lparr>functionCall = None, thought = [],
                ptext = ''Gracias. '' @ open_tag @ inner @ close_tag @ '' Listo.''\<rparr>],
      outcome = Completes\<rparr>"

section \<open>Auxiliary notions for the proofs\<close>

text \<open>The roles of the messages, in order.\<close>

definition roles :: "MapApp \<Rightarrow> string list" where
  "roles a = map role (messages a)"

text \<open>
  Some message after the one at index \<open>idx\<close> has the text \<open>Calling function:\<close> in its
  \<open>.text\<close> element.
\<close>

definition explained :: "nat \<Rightarrow> MapApp \<Rightarrow> bool" where
  "explained idx a =
     list_ex (\<lambda>el. includes_str (textElement el) ''Calling function:'') (drop (Suc idx) (messages a))"

section \<open>Properties of the renaming\<close>










section \<open>Properties of searching and redaction\<close>

lemma strip_prefix_Some_iff: "strip_prefix pat s = Some r \<longleftrightarrow> s = pat @ r"
  by (induction pat s rule: strip_prefix.induct) auto

lemma strip_prefix_None_iff: "strip_prefix pat s = None \<longleftrightarrow> (\<forall>r. s \<noteq> pat @ r)"
  by (metis strip_prefix_Some_iff not_Some_eq)

lemma find_sub_Some_decomp: "find_sub pat s = Some (pre, post) \<Longrightarrow> s = pre @ pat @ post"
proof (induction s arbitrary: pre post)
  case Nil
  then show ?case by (auto simp: strip_prefix_Some_iff split: option.splits)
next
  case (Cons c cs)
  then show ?case by (auto simp: strip_prefix_Some_iff split: option.splits)
qed

lemma find_sub_None_iff: "find_sub pat s = None \<longleftrightarrow> (\<forall>pre post. s \<noteq> pre @ pat @ post)"
proof (induction s)
  case Nil
  show ?case by (auto simp: strip_prefix_None_iff strip_prefix_Some_iff split: option.splits)
next
  case (Cons c cs)
  show ?case
  proof
    assume n: "find_sub pat (c # cs) = None"
    then have a: "strip_prefix pat (c # cs) = None" and b: "find_sub pat cs = None"
      by (auto split: option.splits)
    show "\<forall>pre post. c # cs \<noteq> pre @ pat @ post"
    proof (intro allI notI)
      fix pre post assume e: "c # cs = pre @ pat @ post"
      show False
      proof (cases pre)
        case Nil
        with e a show False by (simp add: strip_prefix_None_iff)
      next
        case (Cons d pre')
        with e have "cs = pre' @ pat @ post" by simp
        with b Cons.IH show False by blast
      qed
    qed
  next
    assume h: "\<forall>pre post. c # cs \<noteq> pre @ pat @ post"
    then have a: "strip_prefix pat (c # cs) = None"
      by (metis append_Nil strip_prefix_Some_iff not_Some_eq)
    from h have "\<forall>pre post. cs \<noteq> pre @ pat @ post"
      by (metis append_Cons)
    with Cons.IH have "find_sub pat cs = None" by blast
    with a show "find_sub pat (c # cs) = None" by simp
  qed
qed

lemma includes_str_iff: "includes_str s pat \<longleftrightarrow> (\<exists>pre post. s = pre @ pat @ post)"
  unfolding includes_str_def by (simp add: find_sub_None_iff)

lemma find_sub_at_head: "strip_prefix pat s = Some r \<Longrightarrow> find_sub pat s = Some ([], r)"
  by (cases s) simp_all

lemma find_sub_first:
  assumes "\<not> includes_str (pre @ butlast pat) pat"
  shows "find_sub pat (pre @ pat @ post) = Some (pre, post)"
  using assms
proof (induction pre)
  case Nil
  show ?case
    by (simp add: find_sub_at_head strip_prefix_Some_iff)
next
  case (Cons c pre)
  have no_head: "strip_prefix pat (c # pre @ pat @ post) = None"
  proof (rule ccontr)
    assume "strip_prefix pat (c # pre @ pat @ post) \<noteq> None"
    then obtain r where r: "c # pre @ pat @ post = pat @ r"
      by (auto simp: strip_prefix_Some_iff)
    have len: "length pat \<le> length ((c # pre) @ butlast pat)" by simp
    have "take (length pat) ((c # pre) @ pat @ post) = pat"
      using r by simp
    moreover have "take (length pat) ((c # pre) @ pat @ post)
        = take (length pat) ((c # pre) @ butlast pat)"
    proof (cases "pat = []")
      case True then show ?thesis by simp
    next
      case False
      then have "pat @ post = butlast pat @ (last pat # post)" by simp
      then have "(c # pre) @ pat @ post = ((c # pre) @ butlast pat) @ (last pat # post)"
        by simp
      then show ?thesis using len by (metis take_append diff_is_0_eq take_0 append_Nil2)
    qed
    ultimately have "take (length pat) ((c # pre) @ butlast pat) = pat" by simp
    then have "(c # pre) @ butlast pat = [] @ pat @ drop (length pat) ((c # pre) @ butlast pat)"
      by (metis append_Nil append_take_drop_id)
    then have "includes_str ((c # pre) @ butlast pat) pat"
      unfolding includes_str_iff by blast
    with Cons.prems show False by simp
  qed
  have "\<not> includes_str (pre @ butlast pat) pat"
  proof
    assume "includes_str (pre @ butlast pat) pat"
    then obtain p q where "pre @ butlast pat = p @ pat @ q"
      unfolding includes_str_iff by blast
    then have "(c # pre) @ butlast pat = (c # p) @ pat @ q" by simp
    then have "includes_str ((c # pre) @ butlast pat) pat"
      unfolding includes_str_iff by blast
    with Cons.prems show False by simp
  qed
  then have "find_sub pat (pre @ pat @ post) = Some (pre, post)"
    by (rule Cons.IH)
  with no_head show ?case by simp
qed


lemma no_straddle:
  assumes fresh: "hd pat \<notin> set (tl pat)"
    and inc: "includes_str (pre @ butlast pat) pat"
  shows "includes_str pre pat"
proof (cases "pat = []")
  case True
  have "pre = [] @ [] @ pre" by simp
  with True show ?thesis unfolding includes_str_iff by blast
next
  case ne: False
  from inc obtain p q where e: "p @ pat @ q = pre @ butlast pat"
    unfolding includes_str_iff by metis
  have short: "length (butlast pat) < length pat" using ne by simp
  from e obtain us where
    "(p = pre @ us \<and> us @ pat @ q = butlast pat) \<or> (p @ us = pre \<and> pat @ q = us @ butlast pat)"
    unfolding append_eq_append_conv2 by blast
  then show ?thesis
  proof
    assume "p = pre @ us \<and> us @ pat @ q = butlast pat"
    then have "length (us @ pat @ q) = length (butlast pat)" by simp
    with short show ?thesis by simp
  next
    assume b: "p @ us = pre \<and> pat @ q = us @ butlast pat"
    then obtain vs where
      "(pat = us @ vs \<and> vs @ q = butlast pat) \<or> (pat @ vs = us \<and> q = vs @ butlast pat)"
      unfolding append_eq_append_conv2 by blast
    then show ?thesis
    proof
      assume "pat @ vs = us \<and> q = vs @ butlast pat"
      then have "us = pat @ vs" by simp
      with b have "pre = p @ pat @ vs" by simp
      then show ?thesis unfolding includes_str_iff by blast
    next
      assume b1: "pat = us @ vs \<and> vs @ q = butlast pat"
      show ?thesis
      proof (cases "vs = []")
        case True
        with b1 have "us = pat" by simp
        with b have "pre = p @ pat @ []" by simp
        then show ?thesis unfolding includes_str_iff by blast
      next
        case vs: False
        have us: "us \<noteq> []"
        proof
          assume "us = []"
          with b have "length (pat @ q) = length (butlast pat)" by simp
          with short show False by simp
        qed
        from b1 have bl: "butlast pat = vs @ q" and pt: "pat = us @ vs" by simp_all
        from bl vs have "hd (butlast pat) = hd vs" by simp
        moreover from bl vs have "butlast pat \<noteq> []" by simp
        then have "hd (butlast pat) = hd pat" by (cases pat) (auto split: if_splits)
        moreover have "hd vs \<in> set vs" using vs by simp
        moreover from us have "set vs \<subseteq> set (tl (us @ vs))" by (cases us) auto
        then have "set vs \<subseteq> set (tl pat)" using pt by simp
        ultimately have "hd pat \<in> set (tl pat)" by auto
        with fresh show ?thesis by simp
      qed
    qed
  qed
qed

lemma open_tag_fresh: "hd open_tag \<notin> set (tl open_tag)"
  by (simp add: open_tag_def)

lemma close_tag_fresh: "hd close_tag \<notin> set (tl close_tag)"
  by (simp add: close_tag_def)

lemma find_sub_leftmost:
  "find_sub pat s = Some (pre', rest) \<Longrightarrow> s = pre @ pat @ x \<Longrightarrow> length pre' \<le> length pre"
proof (induction s arbitrary: pre' rest pre)
  case Nil
  then show ?case by (auto simp: strip_prefix_Some_iff split: option.splits)
next
  case (Cons c cs)
  show ?case
  proof (cases "strip_prefix pat (c # cs)")
    case (Some r)
    with Cons.prems(1) show ?thesis by simp
  next
    case None
    with Cons.prems(1) obtain p where f: "find_sub pat cs = Some (p, rest)" and p: "pre' = c # p"
      by (auto split: option.splits)
    from None Cons.prems(2) have "pre \<noteq> []"
      by (auto simp: strip_prefix_None_iff)
    then obtain d pre0 where pre: "pre = d # pre0" by (cases pre) auto
    with Cons.prems(2) have "cs = pre0 @ pat @ x" by simp
    with f have "length p \<le> length pre0" by (rule Cons.IH)
    with p pre show ?thesis by simp
  qed
qed

lemma match_confirmation_None_iff:
  "match_confirmation s = None
   \<longleftrightarrow> (\<forall>pre inner post. s \<noteq> pre @ open_tag @ inner @ close_tag @ post)"
proof
  assume n: "match_confirmation s = None"
  show "\<forall>pre inner post. s \<noteq> pre @ open_tag @ inner @ close_tag @ post"
  proof (intro allI notI)
    fix pre inner post
    assume e: "s = pre @ open_tag @ inner @ close_tag @ post"
    then have "find_sub open_tag s \<noteq> None"
      by (simp add: find_sub_None_iff) blast
    then obtain pre' rest where f: "find_sub open_tag s = Some (pre', rest)" by auto
    with n have c: "find_sub close_tag rest = None"
      by (auto simp: match_confirmation_def split: option.splits)
    from f have d: "s = pre' @ open_tag @ rest" by (rule find_sub_Some_decomp)
    from f e have le: "length pre' \<le> length pre" by (rule find_sub_leftmost)
    define k where "k = length pre' + length open_tag"
    from d have "rest = drop k s" by (simp add: k_def)
    also have "s = (pre @ open_tag @ inner) @ close_tag @ post" using e by simp
    also have "drop k \<dots> = drop k (pre @ open_tag @ inner) @ close_tag @ post"
      using le by (simp add: k_def)
    finally have "includes_str rest close_tag"
      unfolding includes_str_iff by blast
    with c show False by (simp add: includes_str_def)
  qed
next
  assume "\<forall>pre inner post. s \<noteq> pre @ open_tag @ inner @ close_tag @ post"
  then show "match_confirmation s = None"
    by (auto simp: match_confirmation_def split: option.splits dest!: find_sub_Some_decomp)
qed

lemma match_confirmation_first:
  assumes "\<not> includes_str pre open_tag" and "\<not> includes_str inner close_tag"
  shows "match_confirmation (pre @ open_tag @ inner @ close_tag @ post) = Some (pre, inner, post)"
proof -
  from assms(1) have "\<not> includes_str (pre @ butlast open_tag) open_tag"
    using no_straddle[OF open_tag_fresh] by blast
  then have a: "find_sub open_tag (pre @ open_tag @ inner @ close_tag @ post)
      = Some (pre, inner @ close_tag @ post)"
    by (rule find_sub_first)
  from assms(2) have "\<not> includes_str (inner @ butlast close_tag) close_tag"
    using no_straddle[OF close_tag_fresh] by blast
  then have b: "find_sub close_tag (inner @ close_tag @ post) = Some (inner, post)"
    by (rule find_sub_first)
  from a b show ?thesis by (simp add: match_confirmation_def)
qed

text \<open>
  C3. The redaction removes the first confirmation block and nothing else: where the
  text is \<open>pre\<close>, the opening tag, \<open>inner\<close>, the closing tag and \<open>post\<close>, with no opening
  tag in \<open>pre\<close> and no closing tag in \<open>inner\<close>, the result is \<open>pre\<close> followed by \<open>post\<close>;
  a text in which no opening tag is followed by a closing tag is returned unchanged.
\<close>

theorem redact_removes_block:
  "(\<not> includes_str pre open_tag \<and> \<not> includes_str inner close_tag
      \<longrightarrow> redact (pre @ open_tag @ inner @ close_tag @ post) = pre @ post)
   \<and> ((\<forall>p i q. s \<noteq> p @ open_tag @ i @ close_tag @ q) \<longrightarrow> redact s = s)"
  by (simp add: redact_def match_confirmation_first match_confirmation_None_iff[symmetric])

text \<open>C3 on a text with one block, and on a text whose block is not closed.\<close>

theorem redact_removes_block_witness:
  "\<not> includes_str ''Hola. '' open_tag \<and> \<not> includes_str ''Name: Juan'' close_tag
   \<and> redact (''Hola. '' @ open_tag @ ''Name: Juan'' @ close_tag @ '' Gracias.'') = ''Hola.  Gracias.''
   \<and> (\<forall>p i q. ''<service_confirmation> Name'' \<noteq> p @ open_tag @ i @ close_tag @ q)
   \<and> redact ''<service_confirmation> Name'' = ''<service_confirmation> Name''"
proof -
  have a: "\<not> includes_str ''Hola. '' open_tag"
    by (simp add: includes_str_def open_tag_def)
  have b: "\<not> includes_str ''Name: Juan'' close_tag"
    by (simp add: includes_str_def close_tag_def)
  have c: "\<forall>p i q. ''<service_confirmation> Name'' \<noteq> p @ open_tag @ i @ close_tag @ q"
    unfolding match_confirmation_None_iff[symmetric]
    by (simp add: match_confirmation_def open_tag_def close_tag_def)
  from a b c
    redact_removes_block[of "''Hola. ''" "''Name: Juan''" "'' Gracias.''" "''<service_confirmation> Name''"]
  show ?thesis by simp
qed

section \<open>Properties of a turn\<close>

lemma trim_assistant: "trim ''assistant'' = ''assistant''"
  by (simp add: trim_def is_space_def code_def)

lemma trim_error: "trim ''error'' = ''error''"
  by (simp add: trim_def is_space_def code_def)

lemma messages_set_textElement:
  "messages (set_textElement i h a) =
     (if i < length (messages a) then (messages a)[i := (messages a ! i)\<lparr>textElement := h\<rparr>]
      else messages a)"
  by (simp add: set_textElement_def)

lemma messages_begin_turn:
  "messages (begin_turn a) = messages a @
     [\<lparr>role = ''assistant'', thinkingOpen = False, thinkingHidden = False,
       thinkingElement = [], textElement = ''...''\<rparr>]"
  by (simp add: begin_turn_def set_textElement_def addMessage_def setChatState_def trim_assistant)

lemma turn_history_eq:
  "turn_history e a =
     map (\<lambda>el. (if role el = ''user'' then ''user'' else ''model'',
                 trim (textContent e (textElement el))))
       (filter (\<lambda>el. role el \<noteq> ''error'') (messages a))"
  by (simp add: turn_history_def chatHistory_def messages_begin_turn)

lemma effects_set_textElement [simp]: "effects (set_textElement i h a) = effects a"
  by (simp add: set_textElement_def)

lemma effects_update_turn [simp]: "effects (update_turn i f a) = effects a"
  by (simp add: update_turn_def)

lemma effects_explain_call [simp]: "effects (explain_call e fc a) = effects a"
  by (simp add: explain_call_def addMessage_def Let_def)

lemma effects_process_part: "effects (app (process_part e idx s p)) = effects (app s)"
  by (simp add: process_part_def setChatState_def Let_def split: option.splits)

lemma effects_foldl_process_part:
  "effects (app (foldl (process_part e idx) s ps)) = effects (app s)"
  by (induction ps arbitrary: s) (simp_all add: effects_process_part)

lemma effects_run_stream:
  "effects (app (run_stream e resp input a)) = effects a @ [SendMessageStream (turn_history e a) input]"
  by (simp add: run_stream_def effects_foldl_process_part begin_turn_def setChatState_def addMessage_def)

lemma roles_set_textElement [simp]: "roles (set_textElement i h a) = roles a"
  by (simp add: roles_def set_textElement_def map_update list_update_same_conv)

lemma roles_update_keep:
  "(\<And>el. role (f el) = role el) \<Longrightarrow> roles (update_turn i f a) = roles a"
  by (simp add: roles_def update_turn_def map_update list_update_same_conv)

lemma roles_setChatState [simp]: "roles (setChatState c a) = roles a"
  by (simp add: roles_def setChatState_def)

lemma roles_addMessage [simp]: "roles (addMessage r m a) = roles a @ [trim r]"
  by (simp add: roles_def addMessage_def)

lemma roles_explain_call [simp]: "roles (explain_call e fc a) = roles a @ [''assistant'']"
  by (simp add: explain_call_def Let_def trim_assistant)

lemma roles_process_part:
  "\<exists>k. roles (app (process_part e idx s p)) = roles (app s) @ replicate k ''assistant''"
proof (cases "functionCall p")
  case None
  then have "roles (app (process_part e idx s p)) = roles (app s) @ replicate 0 ''assistant''"
    by (simp add: process_part_def Let_def roles_update_keep)
  then show ?thesis by blast
next
  case (Some fc)
  then have "roles (app (process_part e idx s p)) = roles (app s) @ replicate 1 ''assistant''"
    by (simp add: process_part_def Let_def roles_update_keep)
  then show ?thesis by blast
qed

lemma roles_foldl_process_part:
  "\<exists>k. roles (app (foldl (process_part e idx) s ps)) = roles (app s) @ replicate k ''assistant''"
proof (induction ps arbitrary: s)
  case Nil
  have "roles (app s) = roles (app s) @ replicate 0 ''assistant''" by simp
  then show ?case by (simp del: replicate.simps) 
next
  case (Cons p ps)
  obtain k1 where k1: "roles (app (process_part e idx s p)) = roles (app s) @ replicate k1 ''assistant''"
    using roles_process_part by blast
  obtain k2 where k2: "roles (app (foldl (process_part e idx) (process_part e idx s p) ps))
      = roles (app (process_part e idx s p)) @ replicate k2 ''assistant''"
    using Cons.IH by blast
  have "roles (app (foldl (process_part e idx) s (p # ps)))
      = roles (app s) @ replicate (k1 + k2) ''assistant''"
    using k1 k2 by (simp add: replicate_add)
  then show ?case by blast
qed

text \<open>Earlier messages are not touched.\<close>

lemma take_set_textElement:
  "n \<le> i \<Longrightarrow> take n (messages (set_textElement i h a)) = take n (messages a)"
  by (simp add: set_textElement_def)

lemma take_update_turn:
  "n \<le> i \<Longrightarrow> take n (messages (update_turn i f a)) = take n (messages a)"
  by (simp add: update_turn_def)

lemma take_explain_call:
  "n \<le> length (messages a) \<Longrightarrow> take n (messages (explain_call e fc a)) = take n (messages a)"
  by (simp add: explain_call_def Let_def set_textElement_def addMessage_def)

lemma length_explain_call: "length (messages (explain_call e fc a)) = Suc (length (messages a))"
  by (simp add: explain_call_def Let_def set_textElement_def addMessage_def)

lemma length_process_part:
  "length (messages (app s)) \<le> length (messages (app (process_part e idx s p)))"
  by (simp add: process_part_def Let_def update_turn_def set_textElement_def setChatState_def
      length_explain_call split: option.splits)

lemma take_process_part:
  "n \<le> idx \<Longrightarrow> n \<le> length (messages (app s))
   \<Longrightarrow> take n (messages (app (process_part e idx s p))) = take n (messages (app s))"
  by (simp add: process_part_def Let_def take_update_turn take_set_textElement setChatState_def
      take_explain_call split: option.splits)

lemma take_foldl_process_part:
  "n \<le> idx \<Longrightarrow> n \<le> length (messages (app s))
   \<Longrightarrow> take n (messages (app (foldl (process_part e idx) s ps))) = take n (messages (app s))"
proof (induction ps arbitrary: s)
  case Nil
  then show ?case by simp
next
  case (Cons p ps)
  from Cons.prems have "n \<le> length (messages (app (process_part e idx s p)))"
    using length_process_part[of s e idx p] by simp
  with Cons.prems Cons.IH[of "process_part e idx s p"] show ?case
    by (simp add: take_process_part)
qed

lemma messages_catch_error:
  "messages (catch_error e msg a) = messages a @
     [\<lparr>role = ''error'', thinkingOpen = False, thinkingHidden = False,
       thinkingElement = [], textElement = marked e (''Error: '' @ msg)\<rparr>]"
  by (simp add: catch_error_def set_textElement_def addMessage_def trim_error)

lemma effects_catch_error [simp]: "effects (catch_error e msg a) = effects a"
  by (simp add: catch_error_def addMessage_def)

lemma count_role: "length (filter (\<lambda>el. role el = x) (messages a)) = length (filter (\<lambda>r. r = x) (roles a))"
  by (simp add: roles_def filter_map comp_def)

lemma roles_run_stream:
  "\<exists>k. roles (app (run_stream e resp input a)) = roles a @ replicate (Suc k) ''assistant''"
proof -
  let ?s0 = "\<lparr>newCode = [], thoughtAccumulator = [],
        app = (begin_turn a)\<lparr>effects := effects (begin_turn a) @
                [SendMessageStream (turn_history e a) input]\<rparr>\<rparr>"
  obtain k where "roles (app (foldl (process_part e (length (messages a))) ?s0 (parts resp)))
      = roles (app ?s0) @ replicate k ''assistant''"
    using roles_foldl_process_part by blast
  moreover have "roles (app ?s0) = roles a @ [''assistant'']"
    by (simp add: roles_def messages_begin_turn)
  ultimately have "roles (app (run_stream e resp input a)) = roles a @ replicate (Suc k) ''assistant''"
    by (simp add: run_stream_def replicate_append_same)
  then show ?thesis by blast
qed

lemma take_run_stream:
  "take (length (messages a)) (messages (app (run_stream e resp input a))) = messages a"
  by (simp add: run_stream_def take_foldl_process_part messages_begin_turn)

lemma chatState_handler: "chatState (sendMessageHandler e resp newId now input r a) = IDLE"
  by (simp add: sendMessageHandler_def setChatState_def Let_def)

text \<open>
  C6. The handler always returns with the chat state \<open>IDLE\<close>. When the stream throws,
  the last message of the conversation is a message of role \<open>error\<close> whose text is the
  rendering of \<open>Error:\<close> followed by the failure text; it is the only message of that role
  that the turn adds; the messages from before the turn are untouched; and the model was
  called once, with no second call.
\<close>

theorem turn_failure_reported_once:
  "chatState (sendMessageHandler e resp newId now input r a) = IDLE
   \<and> (outcome resp = Throws msg \<longrightarrow>
        last (messages (sendMessageHandler e resp newId now input r a))
          = \<lparr>role = ''error'', thinkingOpen = False, thinkingHidden = False,
             thinkingElement = [], textElement = marked e (''Error: '' @ msg)\<rparr>
        \<and> length (filter (\<lambda>el. role el = ''error'')
                    (messages (sendMessageHandler e resp newId now input r a)))
          = Suc (length (filter (\<lambda>el. role el = ''error'') (messages a)))
        \<and> take (length (messages a)) (messages (sendMessageHandler e resp newId now input r a))
          = messages a
        \<and> effects (sendMessageHandler e resp newId now input r a)
          = effects a @ [SendMessageStream (turn_history e a) input])"
proof (intro conjI impI)
  show "chatState (sendMessageHandler e resp newId now input r a) = IDLE"
    by (rule chatState_handler)
next
  assume t: "outcome resp = Throws msg"
  let ?s = "run_stream e resp input a"
  let ?err = "\<lparr>role = ''error'', thinkingOpen = False, thinkingHidden = False,
             thinkingElement = [], textElement = marked e (''Error: '' @ msg)\<rparr>"
  from t have m: "messages (sendMessageHandler e resp newId now input r a) = messages (app ?s) @ [?err]"
    by (simp add: sendMessageHandler_def Let_def setChatState_def messages_catch_error)
  from m show "last (messages (sendMessageHandler e resp newId now input r a)) = ?err"
    by simp
  obtain k where k: "roles (app ?s) = roles a @ replicate (Suc k) ''assistant''"
    using roles_run_stream by blast
  have "length (filter (\<lambda>el. role el = ''error'') (messages (app ?s)))
      = length (filter (\<lambda>el. role el = ''error'') (messages a))"
    unfolding count_role k by simp
  with m show "length (filter (\<lambda>el. role el = ''error'')
                    (messages (sendMessageHandler e resp newId now input r a)))
          = Suc (length (filter (\<lambda>el. role el = ''error'') (messages a)))"
    by simp
  have "length (messages a) \<le> length (messages (app ?s))"
    using take_run_stream[of a e resp input] by (metis nat_le_linear take_all)
  with m show "take (length (messages a)) (messages (sendMessageHandler e resp newId now input r a))
          = messages a"
    by (simp add: take_run_stream)
  from t show "effects (sendMessageHandler e resp newId now input r a)
          = effects a @ [SendMessageStream (turn_history e a) input]"
    by (simp add: sendMessageHandler_def Let_def setChatState_def effects_run_stream)
qed

lemma includes_innerHTML:
  assumes "includes_str (textElement el) pat"
  shows "includes_str (innerHTML el) pat"
proof -
  from assms obtain p q where "textElement el = p @ pat @ q"
    unfolding includes_str_iff by blast
  then have "\<exists>p' q'. innerHTML el = p' @ pat @ q'"
    unfolding innerHTML_def by (metis append.assoc)
  then show ?thesis unfolding includes_str_iff .
qed

lemma explained_hasFunctionCallMessage:
  assumes "explained idx a"
  shows "hasFunctionCallMessage a"
proof -
  from assms obtain el where el: "el \<in> set (drop (Suc idx) (messages a))"
    and inc: "includes_str (textElement el) ''Calling function:''"
    unfolding explained_def list_ex_iff by blast
  from el have "el \<in> set (messages a)" by (rule in_set_dropD)
  with inc show ?thesis
    unfolding hasFunctionCallMessage_def list_ex_iff using includes_innerHTML by blast
qed

lemma drop_set_textElement:
  "drop (Suc idx) (messages (set_textElement idx h a)) = drop (Suc idx) (messages a)"
  by (simp add: set_textElement_def)

lemma drop_update_turn:
  "drop (Suc idx) (messages (update_turn idx f a)) = drop (Suc idx) (messages a)"
  by (simp add: update_turn_def)

lemma messages_explain_call:
  "messages (explain_call e fc a) = messages a @
     [\<lparr>role = ''assistant'', thinkingOpen = False, thinkingHidden = False, thinkingElement = [],
       textElement = marked e (''Calling function:'' @ [char_of (10::nat)] @ ''```json''
          @ [char_of (10::nat)] @ stringify e (camelCaseToDash (fst fc), snd fc)
          @ [char_of (10::nat)] @ ''```'')\<rparr>]"
  by (simp add: explain_call_def Let_def set_textElement_def addMessage_def trim_assistant)

lemma explained_explain_call_keep:
  "explained idx a \<Longrightarrow> explained idx (explain_call e fc a)"
  by (auto simp: explained_def messages_explain_call list_ex_iff)

lemma explained_explain_call_new:
  assumes "idx < length (messages a)"
    and "\<forall>x. includes_str (marked e (''Calling function:'' @ x)) ''Calling function:''"
  shows "explained idx (explain_call e fc a)"
  using assms by (simp add: explained_def messages_explain_call list_ex_iff)

lemma explained_process_part_rest:
  assumes "explained idx a1"
  shows "explained idx (update_turn idx f (setChatState c a1))
   \<and> explained idx (set_textElement idx h (setChatState c a1))"
proof -
  have "messages (setChatState c a1) = messages a1"
    by (simp add: setChatState_def)
  with assms show ?thesis
    by (simp add: explained_def drop_set_textElement drop_update_turn)
qed

lemma explained_process_part_keep:
  assumes "explained idx (app s)"
  shows "explained idx (app (process_part e idx s p))"
proof -
  let ?a1 = "case functionCall p of None \<Rightarrow> app s | Some fc \<Rightarrow> explain_call e fc (app s)"
  from assms have "explained idx ?a1"
    by (simp add: explained_explain_call_keep split: option.splits)
  then show ?thesis
    using explained_process_part_rest[of idx ?a1]
    by (simp add: process_part_def Let_def)
qed

lemma explained_process_part_new:
  assumes "functionCall p \<noteq> None"
    and "idx < length (messages (app s))"
    and "\<forall>x. includes_str (marked e (''Calling function:'' @ x)) ''Calling function:''"
  shows "explained idx (app (process_part e idx s p))"
proof -
  let ?a1 = "case functionCall p of None \<Rightarrow> app s | Some fc \<Rightarrow> explain_call e fc (app s)"
  from assms have "explained idx ?a1"
    by (auto simp: explained_explain_call_new split: option.splits)
  then show ?thesis
    using explained_process_part_rest[of idx ?a1]
    by (simp add: process_part_def Let_def)
qed

lemma explained_foldl_keep:
  "explained idx (app s) \<Longrightarrow> explained idx (app (foldl (process_part e idx) s ps))"
  by (induction ps arbitrary: s) (simp_all add: explained_process_part_keep)

lemma explained_foldl_new:
  assumes "list_ex (\<lambda>p. functionCall p \<noteq> None) ps"
    and "idx < length (messages (app s))"
    and "\<forall>x. includes_str (marked e (''Calling function:'' @ x)) ''Calling function:''"
  shows "explained idx (app (foldl (process_part e idx) s ps))"
  using assms(1,2)
proof (induction ps arbitrary: s)
  case Nil
  then show ?case by simp
next
  case (Cons p ps)
  have len: "idx < length (messages (app (process_part e idx s p)))"
    using Cons.prems(2) length_process_part[of s e idx p] by simp
  show ?case
  proof (cases "functionCall p \<noteq> None")
    case True
    from True Cons.prems(2) assms(3) have "explained idx (app (process_part e idx s p))"
      by (rule explained_process_part_new)
    then show ?thesis by (simp add: explained_foldl_keep)
  next
    case False
    with Cons.prems(1) have "list_ex (\<lambda>p. functionCall p \<noteq> None) ps" by simp
    with len show ?thesis using Cons.IH by simp
  qed
qed

lemma messages_after_stream:
  "\<exists>f. messages (after_stream idx newId now s) = messages (update_turn idx f (app s))"
proof -
  let ?f = "\<lambda>el. if thinkingOpen el
                  then el\<lparr>thinkingHidden := (thinkingHidden el \<or> \<not> truthy (thoughtAccumulator s)),
                          thinkingOpen := False\<rparr>
                  else el"
  have "messages (after_stream idx newId now s) = messages (update_turn idx ?f (app s))"
    by (simp add: after_stream_def Let_def update_turn_def speakMessage_def
        enableLocationSelectionMode_def addServiceToHistory_def split: option.splits)
  then show ?thesis by blast
qed

lemma explained_after_stream:
  "explained idx (app s) \<Longrightarrow> explained idx (after_stream idx newId now s)"
  using messages_after_stream[of idx newId now s]
  by (auto simp: explained_def drop_update_turn)

lemma length_after_stream:
  "length (messages (after_stream idx newId now s)) = length (messages (app s))"
  using messages_after_stream[of idx newId now s]
  by (auto simp: update_turn_def)

lemma length_run_stream:
  "length (messages a) < length (messages (app (run_stream e resp input a)))"
proof -
  obtain k where "roles (app (run_stream e resp input a)) = roles a @ replicate (Suc k) ''assistant''"
    using roles_run_stream by blast
  then have "length (roles (app (run_stream e resp input a))) = length (roles a) + Suc k"
    by simp
  then show ?thesis by (simp add: roles_def)
qed

lemma explained_run_stream:
  assumes "list_ex (\<lambda>p. functionCall p \<noteq> None) (parts resp)"
    and "\<forall>x. includes_str (marked e (''Calling function:'' @ x)) ''Calling function:''"
  shows "explained (length (messages a)) (app (run_stream e resp input a))"
  unfolding run_stream_def
  by (rule explained_foldl_new[OF assms(1) _ assms(2)]) (simp add: messages_begin_turn)

lemma get_set_textElement:
  "i < length (messages a) \<Longrightarrow> get_textElement i (set_textElement i h a) = h"
  by (simp add: get_textElement_def set_textElement_def)

lemma get_textElement_setChatState [simp]:
  "get_textElement i (setChatState c a) = get_textElement i a"
  by (simp add: get_textElement_def setChatState_def)

lemma trim_Nil [simp]: "trim [] = []"
  by (simp add: trim_def)

text \<open>
  C8 (amended). When the stream completes and the rendered text of the reply is empty or
  still the placeholder: if no message of the conversation has \<open>Calling function:\<close> in
  its markup, the text becomes the rendering of \<open>Done.\<close>; if some message has it, the
  text is left empty. A tool call in this turn makes such a message, provided the
  renderer keeps that text.
\<close>

theorem completion_notice_rule:
  assumes "outcome resp = Completes"
    and "trim (get_textElement (length (messages a))
               (after_stream (length (messages a)) newId now (run_stream e resp input a))) = ''...''
         \<or> trim (get_textElement (length (messages a))
               (after_stream (length (messages a)) newId now (run_stream e resp input a))) = []"
  shows "(\<not> hasFunctionCallMessage
              (after_stream (length (messages a)) newId now (run_stream e resp input a))
          \<longrightarrow> get_textElement (length (messages a)) (sendMessageHandler e resp newId now input r a)
              = marked e ''Done.'')
       \<and> (hasFunctionCallMessage
              (after_stream (length (messages a)) newId now (run_stream e resp input a))
          \<longrightarrow> trim (get_textElement (length (messages a))
                      (sendMessageHandler e resp newId now input r a)) = [])
       \<and> (list_ex (\<lambda>p. functionCall p \<noteq> None) (parts resp)
            \<and> (\<forall>x. includes_str (marked e (''Calling function:'' @ x)) ''Calling function:'')
          \<longrightarrow> hasFunctionCallMessage
                (after_stream (length (messages a)) newId now (run_stream e resp input a)))"
proof -
  let ?idx = "length (messages a)"
  let ?P = "after_stream ?idx newId now (run_stream e resp input a)"
  have len: "?idx < length (messages ?P)"
    by (simp add: length_after_stream length_run_stream)
  have fin: "get_textElement ?idx (sendMessageHandler e resp newId now input r a)
      = get_textElement ?idx (completion_notice e ?idx ?P)"
    using assms(1) by (simp add: sendMessageHandler_def Let_def)
  have 1: "\<not> hasFunctionCallMessage ?P
      \<longrightarrow> get_textElement ?idx (sendMessageHandler e resp newId now input r a) = marked e ''Done.''"
    using assms(2) len unfolding fin
    by (auto simp: completion_notice_def get_set_textElement)
  have 2: "hasFunctionCallMessage ?P
      \<longrightarrow> trim (get_textElement ?idx (sendMessageHandler e resp newId now input r a)) = []"
    using assms(2) len unfolding fin
    by (auto simp: completion_notice_def get_set_textElement)
  have 3: "list_ex (\<lambda>p. functionCall p \<noteq> None) (parts resp)
            \<and> (\<forall>x. includes_str (marked e (''Calling function:'' @ x)) ''Calling function:'')
          \<longrightarrow> hasFunctionCallMessage ?P"
    by (blast intro: explained_hasFunctionCallMessage explained_after_stream explained_run_stream)
  from 1 2 3 show ?thesis by blast
qed

section \<open>Properties of the service history\<close>

lemma sid_change [simp]: "sid (change op s) = sid s"
  by (cases "(op, s)" rule: change.cases) simp_all













section \<open>Sending, dispatch and concrete turns\<close>

text \<open>
  C1. \<open>handleMapQuery\<close> starts the view of a location with \<open>location\<close> when it is
  present and not empty; otherwise the route from \<open>origin\<close> to \<open>destination\<close> when both
  are; otherwise the view of a location with \<open>destination\<close> when it is; otherwise it
  starts nothing and returns.
\<close>

theorem handleMapQuery_dispatch:
  "(truthy_opt (location params)
      \<longrightarrow> handleMapQuery params = Some (ViewLocation (string_of (location params))))
   \<and> (\<not> truthy_opt (location params) \<and> truthy_opt (origin params) \<and> truthy_opt (destination params)
      \<longrightarrow> handleMapQuery params
          = Some (Directions (string_of (origin params)) (string_of (destination params))))
   \<and> (\<not> truthy_opt (location params) \<and> \<not> truthy_opt (origin params) \<and> truthy_opt (destination params)
      \<longrightarrow> handleMapQuery params = Some (ViewLocation (string_of (destination params))))
   \<and> (\<not> truthy_opt (location params) \<and> \<not> truthy_opt (destination params)
      \<longrightarrow> handleMapQuery params = None)"
  by (simp add: handleMapQuery_def)

text \<open>
  The four cases of C1 on the inputs of the specification.
\<close>

theorem handleMapQuery_dispatch_witness:
  "handleMapQuery \<lparr>location = Some ''X'', origin = None, destination = None\<rparr> = Some (ViewLocation ''X'')
   \<and> handleMapQuery \<lparr>location = None, origin = Some ''A'', destination = Some ''B''\<rparr>
       = Some (Directions ''A'' ''B'')
   \<and> handleMapQuery \<lparr>location = None, origin = None, destination = Some ''B''\<rparr> = Some (ViewLocation ''B'')
   \<and> handleMapQuery \<lparr>location = None, origin = None, destination = None\<rparr> = None"
  using handleMapQuery_dispatch[of "\<lparr>location = Some ''X'', origin = None, destination = None\<rparr>"]
    handleMapQuery_dispatch[of "\<lparr>location = None, origin = Some ''A'', destination = Some ''B''\<rparr>"]
    handleMapQuery_dispatch[of "\<lparr>location = None, origin = None, destination = Some ''B''\<rparr>"]
    handleMapQuery_dispatch[of "\<lparr>location = None, origin = None, destination = None\<rparr>"]
  by (simp add: truthy_def)

text \<open>
  C5. While the chat state is not \<open>IDLE\<close>, \<open>sendMessageAction\<close> returns the state it was
  given: no message, no change of the input field or of any other field, no call on a
  collaborator, and the handler is not called.
\<close>

theorem send_while_busy_is_noop:
  "chatState a \<noteq> IDLE \<Longrightarrow> sendMessageAction e handler message r a = a"
  by (simp add: sendMessageAction_def)

text \<open>
  C5 on a state that is generating, with a text typed.
\<close>

theorem send_while_busy_is_noop_witness:
  "chatState (initial_app\<lparr>chatState := GENERATING, inputMessage := ''hola''\<rparr>) \<noteq> IDLE
   \<and> sendMessageAction example_env (Some (sendMessageHandler example_env silent ''id'' 0))
        None None (initial_app\<lparr>chatState := GENERATING, inputMessage := ''hola''\<rparr>)
       = initial_app\<lparr>chatState := GENERATING, inputMessage := ''hola''\<rparr>"
  using send_while_busy_is_noop[of "initial_app\<lparr>chatState := GENERATING, inputMessage := ''hola''\<rparr>"
      example_env "Some (sendMessageHandler example_env silent ''id'' 0)" None None]
  by simp

text \<open>
  C10. In state \<open>IDLE\<close>, with no message argument and a typed input that is
  \<open>soy administrador\<close> once trimmed and lower-cased, \<open>sendMessageAction\<close> opens the admin
  panel on its history tab and empties the input field; the speech is cancelled and the
  location selection is left, as at every send; no message is added, and the result does
  not depend on the handler, which is not called.
\<close>

theorem admin_keyword_opens_panel:
  assumes "chatState a = IDLE"
    and "\<not> truthy_opt message"
    and "toLowerCase (trim (inputMessage a)) = ''soy administrador''"
  shows "sendMessageAction e handler message r a =
           a\<lparr>currentView := AdminView, currentAdminTab := HistoryTab, inputMessage := [],
             isLocationSelectionMode := False,
             locationSelectionMessage :=
               (if isLocationSelectionMode a then [] else locationSelectionMessage a),
             effects := effects a @ [SpeechCancel]\<rparr>
       \<and> messages (sendMessageAction e handler message r a) = messages a
       \<and> chatState (sendMessageAction e handler message r a) = IDLE"
proof -
  from assms(3) have "trim (inputMessage a) \<noteq> []"
    by (auto simp: toLowerCase_def)
  with assms show ?thesis
    by (simp add: sendMessageAction_def disableLocationSelectionMode_def Let_def)
qed

text \<open>
  C10 on a typed keyword with capitals and spaces around it.
\<close>

theorem admin_keyword_opens_panel_witness:
  "chatState (initial_app\<lparr>inputMessage := '' Soy Administrador ''\<rparr>) = IDLE
   \<and> toLowerCase (trim (inputMessage (initial_app\<lparr>inputMessage := '' Soy Administrador ''\<rparr>)))
       = ''soy administrador''
   \<and> sendMessageAction example_env (Some (sendMessageHandler example_env silent ''id'' 0)) None None
        (initial_app\<lparr>inputMessage := '' Soy Administrador ''\<rparr>)
       = initial_app\<lparr>currentView := AdminView, effects := [SpeechCancel]\<rparr>"
proof -
  have a: "chatState (initial_app\<lparr>inputMessage := '' Soy Administrador ''\<rparr>) = IDLE"
    by (simp add: initial_app_def)
  have b: "\<not> truthy_opt None" by simp
  have c: "toLowerCase (trim (inputMessage (initial_app\<lparr>inputMessage := '' Soy Administrador ''\<rparr>)))
       = ''soy administrador''"
    by code_simp
  from a c admin_keyword_opens_panel[OF a b c, of example_env
      "Some (sendMessageHandler example_env silent ''id'' 0)" None]
  show ?thesis by (simp add: initial_app_def)
qed

lemma effects_after_stream:
  "\<exists>xs. effects (after_stream idx newId now s) = effects (app s) @ xs"
proof -
  have "\<exists>xs. effects (speakMessage t a) = effects a @ xs" for t a
    by (simp add: speakMessage_def Let_def)
  then obtain xs where
    "effects (speakMessage (trim (redact (newCode s))) (app s)) = effects (app s) @ xs"
    by blast
  then show ?thesis
    by (auto simp: after_stream_def Let_def enableLocationSelectionMode_def
        addServiceToHistory_def split: option.splits)
qed

lemma effects_completion_notice [simp]: "effects (completion_notice e idx a) = effects a"
  by (simp add: completion_notice_def)

lemma effects_handler:
  "\<exists>xs. effects (sendMessageHandler e resp newId now input r a)
      = effects a @ [SendMessageStream (turn_history e a) input] @ xs"
proof (cases "outcome resp")
  case Completes
  obtain xs where "effects (after_stream (length (messages a)) newId now (run_stream e resp input a))
      = effects (app (run_stream e resp input a)) @ xs"
    using effects_after_stream by blast
  with Completes have "effects (sendMessageHandler e resp newId now input r a)
      = effects a @ [SendMessageStream (turn_history e a) input] @ xs"
    by (simp add: sendMessageHandler_def Let_def setChatState_def effects_run_stream)
  then show ?thesis by blast
next
  case (Throws msg)
  then have "effects (sendMessageHandler e resp newId now input r a)
      = effects a @ [SendMessageStream (turn_history e a) input] @ []"
    by (simp add: sendMessageHandler_def Let_def setChatState_def effects_run_stream)
  then show ?thesis by blast
qed

text \<open>
  C7. The history that the handler passes to the model is made of the messages rendered
  before the turn, without those of role \<open>error\<close>, each as a pair of a role (\<open>user\<close> for a
  message of the user, \<open>model\<close> for any other) and its trimmed text content; the
  message the handler has just added for the reply is not part of it.
\<close>

theorem history_sent_to_model:
  "turn_history e a =
     map (\<lambda>el. (if role el = ''user'' then ''user'' else ''model'',
                 trim (textContent e (textElement el))))
       (filter (\<lambda>el. role el \<noteq> ''error'') (messages a))
   \<and> take (Suc (length (effects a))) (effects (sendMessageHandler e resp newId now input r a))
       = effects a @ [SendMessageStream (turn_history e a) input]"
proof
  show "turn_history e a =
     map (\<lambda>el. (if role el = ''user'' then ''user'' else ''model'',
                 trim (textContent e (textElement el))))
       (filter (\<lambda>el. role el \<noteq> ''error'') (messages a))"
    by (rule turn_history_eq)
  obtain xs where "effects (sendMessageHandler e resp newId now input r a)
      = effects a @ [SendMessageStream (turn_history e a) input] @ xs"
    using effects_handler by blast
  then show "take (Suc (length (effects a))) (effects (sendMessageHandler e resp newId now input r a))
       = effects a @ [SendMessageStream (turn_history e a) input]"
    by simp
qed

text \<open>
  C6 on a stream that breaks after its first text.
\<close>

theorem turn_failure_reported_once_witness:
  "outcome failing = Throws ''fetch failed''
   \<and> chatState (sendMessageHandler example_env failing ''id'' 0 ''hola'' ''user'' initial_app) = IDLE
   \<and> map role (messages (sendMessageHandler example_env failing ''id'' 0 ''hola'' ''user'' initial_app))
       = [''assistant'', ''error'']
   \<and> last (messages (sendMessageHandler example_env failing ''id'' 0 ''hola'' ''user'' initial_app))
       = \<lparr>role = ''error'', thinkingOpen = False, thinkingHidden = False,
          thinkingElement = [], textElement = ''<p>Error: fetch failed</p>''\<rparr>"
proof -
  have o: "outcome failing = Throws ''fetch failed''"
    by (simp add: failing_def)
  have r: "map role (messages (sendMessageHandler example_env failing ''id'' 0 ''hola'' ''user'' initial_app))
       = [''assistant'', ''error'']"
    by code_simp
  have m: "marked example_env (''Error: '' @ ''fetch failed'') = ''<p>Error: fetch failed</p>''"
    by (simp add: example_env_def)
  from o r m
    turn_failure_reported_once[of example_env failing "''id''" 0 "''hola''" "''user''" initial_app
      "''fetch failed''"]
  show ?thesis by simp
qed

text \<open>
  C8 (as stated). A turn with an empty reply and no tool call, after a turn that had a
  tool call: the reply is left empty, and the notice is not shown.
\<close>

theorem notice_suppressed_by_earlier_turn:
  "length (messages first_turn) = 3
   \<and> map role (messages second_turn) = [''user'', ''assistant'', ''assistant'', ''user'', ''assistant'']
   \<and> outcome silent = Completes
   \<and> parts silent = []
   \<and> get_textElement 4 second_turn = []
   \<and> marked example_env ''Done.'' = ''<p>Done.</p>''"
  by code_simp

text \<open>
  C8 (amended) on an empty reply in a new conversation, and on a reply that is a tool call.
\<close>

theorem completion_notice_rule_witness:
  "outcome silent = Completes
   \<and> trim (get_textElement (length (messages initial_app))
        (after_stream (length (messages initial_app)) ''id'' 0
           (run_stream example_env silent ''hola'' initial_app))) = ''...''
   \<and> \<not> hasFunctionCallMessage
        (after_stream (length (messages initial_app)) ''id'' 0
           (run_stream example_env silent ''hola'' initial_app))
   \<and> get_textElement (length (messages initial_app))
        (sendMessageHandler example_env silent ''id'' 0 ''hola'' ''user'' initial_app)
       = marked example_env ''Done.''
   \<and> outcome call_only = Completes
   \<and> list_ex (\<lambda>p. functionCall p \<noteq> None) (parts call_only)
   \<and> hasFunctionCallMessage
        (after_stream (length (messages initial_app)) ''id'' 0
           (run_stream example_env call_only ''hola'' initial_app))
   \<and> trim (get_textElement (length (messages initial_app))
        (sendMessageHandler example_env call_only ''id'' 0 ''hola'' ''user'' initial_app)) = []"
proof -
  have o1: "outcome silent = Completes" by (simp add: silent_def)
  have t1: "trim (get_textElement (length (messages initial_app))
        (after_stream (length (messages initial_app)) ''id'' 0
           (run_stream example_env silent ''hola'' initial_app))) = ''...''"
    by code_simp
  have n1: "\<not> hasFunctionCallMessage
        (after_stream (length (messages initial_app)) ''id'' 0
           (run_stream example_env silent ''hola'' initial_app))"
    by code_simp
  have o2: "outcome call_only = Completes" by (simp add: call_only_def)
  have t2: "trim (get_textElement (length (messages initial_app))
        (after_stream (length (messages initial_app)) ''id'' 0
           (run_stream example_env call_only ''hola'' initial_app))) = ''...''"
    by code_simp
  have c2: "list_ex (\<lambda>p. functionCall p \<noteq> None) (parts call_only)"
    by (simp add: call_only_def)
  have k: "\<forall>x. includes_str (marked example_env (''Calling function:'' @ x)) ''Calling function:''"
  proof
    fix x
    have "marked example_env (''Calling function:'' @ x)
        = ''<p>'' @ ''Calling function:'' @ (x @ ''</p>'')"
      by (simp add: example_env_def)
    then show "includes_str (marked example_env (''Calling function:'' @ x)) ''Calling function:''"
      unfolding includes_str_iff by blast
  qed
  note a = completion_notice_rule[OF o1 disjI1[OF t1], of "''user''"]
  note b = completion_notice_rule[OF o2 disjI1[OF t2], of "''user''"]
  from a n1 have d: "get_textElement (length (messages initial_app))
        (sendMessageHandler example_env silent ''id'' 0 ''hola'' ''user'' initial_app)
       = marked example_env ''Done.''"
    by blast
  from b c2 k have h: "hasFunctionCallMessage
        (after_stream (length (messages initial_app)) ''id'' 0
           (run_stream example_env call_only ''hola'' initial_app))"
    by blast
  with b have "trim (get_textElement (length (messages initial_app))
        (sendMessageHandler example_env call_only ''id'' 0 ''hola'' ''user'' initial_app)) = []"
    by blast
  with o1 t1 n1 d o2 c2 h show ?thesis by blast
qed

text \<open>
  The scenario of the specification: a complete block gives one pending record with no price.
\<close>

lemma confirmation_scenario:
  "serviceHistory (sendMessageHandler example_env
       (reply_with (block_of ''Juan'' ''3334854080'' ''llanta ponchada'' ''Calle 5, Mazamitla''))
       ''id'' 7 ''hola'' ''user'' initial_app)
   = [\<lparr>name = ''Juan'', phone = ''3334854080'', address = ''Calle 5, Mazamitla'',
       details = ''llanta ponchada'', sid = ''id'', timestamp = 7, status = Pendiente,
       price = None\<rparr>]"
  by code_simp

text \<open>
  C2. A block whose \<open>Name\<close> line has no value is recorded, with the next line as the
  name; a block whose \<open>Details\<close> line has no value is recorded with the next line as
  the details, not with the placeholder.
\<close>

theorem empty_name_is_recorded:
  "spec_field_value ''Name:'' (block_of [] ''3334854080'' ''llanta ponchada'' ''Calle 5, Mazamitla'')
     = Some []
   \<and> serviceHistory (sendMessageHandler example_env
       (reply_with (block_of [] ''3334854080'' ''llanta ponchada'' ''Calle 5, Mazamitla''))
       ''id'' 7 ''hola'' ''user'' initial_app)
     = [\<lparr>name = ''Phone: 3334854080'', phone = ''3334854080'', address = ''Calle 5, Mazamitla'',
         details = ''llanta ponchada'', sid = ''id'', timestamp = 7, status = Pendiente,
         price = None\<rparr>]
   \<and> spec_field_value ''Details:'' (block_of ''Juan'' ''3334854080'' [] ''Calle 5, Mazamitla'')
     = Some []
   \<and> map details (serviceHistory (sendMessageHandler example_env
       (reply_with (block_of ''Juan'' ''3334854080'' [] ''Calle 5, Mazamitla''))
       ''id'' 7 ''hola'' ''user'' initial_app))
     = [''Address: Calle 5, Mazamitla'']"
  by code_simp

end
